theory Spec2Isabelle
  imports Main "HOL-Library.Sublist"
begin

text \<open>
  A model of \<^verbatim>\<open>server.js\<close>: the two Mongoose models, the JWT middleware and the
  seven resolvers of the GraphQL root. A request is resolved as a whole before the next
  one starts: the interleaving of concurrent requests at the awaits, and a failure of
  the database between two saves, are outside the model. The database is the state that
  each resolver takes and returns; what a resolver throws is a value of the type
  \<open>error\<close>.
\<close>

section \<open>Documents of the two collections (server.js, lines 16-40)\<close>

text \<open>
  An ObjectId is modelled by its string form, \<^verbatim>\<open>toString()\<close>: 24 hexadecimal digits
  with the letters in lower case. That is the form in which the resolvers compare a stored
  id with a string (\<^verbatim>\<open>p.course.toString() === courseId\<close>, and
  \<^verbatim>\<open>includes\<close> of a Mongoose array). A course id that a client sends is any string.
\<close>

type_synonym oid = string

record quiz_doc =
  question :: string
  options :: "string list"
  answer :: string

text \<open>One element of \<^verbatim>\<open>user.progress\<close>.\<close>

record progress_doc =
  course :: oid
  completedLessons :: "string list"

text \<open>The field \<^verbatim>\<open>_id\<close> is \<open>user_id\<close> here and \<open>course_id\<close> in a course.\<close>

record user_doc =
  user_id :: oid
  name :: string
  email :: string
  password :: string
  enrolledCourses :: "oid list"
  progress :: "progress_doc list"

text \<open>\<^verbatim>\<open>category\<close> is an optional String of the schema: a stored course may lack it.\<close>

record course_doc =
  course_id :: oid
  title :: string
  description :: string
  category :: "string option"
  lessons :: "string list"
  quizzes :: "quiz_doc list"
  enrolledStudents :: "oid list"

text \<open>The database: the collection behind each model, in natural order.\<close>

record db =
  user_coll :: "user_doc list"
  course_coll :: "course_doc list"

section \<open>Errors\<close>

text \<open>
  \<open>Error m\<close> is \<^verbatim>\<open>throw new Error(m)\<close>. \<open>TypeError\<close> is what reading a property of
  \<^verbatim>\<open>null\<close> or \<^verbatim>\<open>undefined\<close> throws. \<open>CastError\<close> is what Mongoose throws for a
  string that does not cast to an ObjectId. \<open>MongoServerError\<close> is the duplicate-key
  error of an insert that hits a unique index (\<^verbatim>\<open>_id\<close>, or \<^verbatim>\<open>email\<close>, declared
  unique).
\<close>

datatype error = Error string | TypeError | CastError | MongoServerError

abbreviation Unauthorized :: error where
  "Unauthorized \<equiv> Error ''Unauthorized''"

abbreviation DuplicateEmail :: error where
  "DuplicateEmail \<equiv> Error ''Email already registered''"

abbreviation InvalidCredentials :: error where
  "InvalidCredentials \<equiv> Error ''Invalid credentials''"

section \<open>The JWT middleware (server.js, lines 50-64)\<close>

text \<open>
  The jsonwebtoken package is not part of the repository. Its two functions are
  parameters of the model: \<open>jwt_verify\<close> stands for
  \<^verbatim>\<open>jwt.verify(_, process.env.JWT_SECRET)\<close> at the time of the request, returning the
  decoded payload or the error it throws; \<open>jwt_sign\<close> stands for
  \<^verbatim>\<open>jwt.sign(_, process.env.JWT_SECRET, { expiresIn: '1d' })\<close>.
\<close>

datatype jwt_error = TokenExpiredError | JsonWebTokenError | NotBeforeError

record payload =
  payload_userId :: "oid option"

text \<open>
  The request as the middleware and the resolvers see it: the authorization header
  (\<open>None\<close>: absent), and the two properties the middleware sets (\<open>None\<close>:
  \<^verbatim>\<open>undefined\<close>).
\<close>

record req =
  authorization :: "string option"
  req_isAuth :: "bool option"
  req_userId :: "oid option"

definition new_req :: "string option \<Rightarrow> req" where
  "new_req h = \<lparr>authorization = h, req_isAuth = None, req_userId = None\<rparr>"

text \<open>\<^verbatim>\<open>s.split(c)\<close> of JavaScript for a separator of one character.\<close>

fun str_split :: "char \<Rightarrow> string \<Rightarrow> string list" where
  "str_split c [] = [[]]"
| "str_split c (x # xs) =
     (if x = c then [] # str_split c xs
      else (case str_split c xs of [] \<Rightarrow> [[x]] | y # ys \<Rightarrow> (x # y) # ys))"

text \<open>
  \<^verbatim>\<open>authHeader.split(' ')[1]\<close>: \<open>None\<close> is \<^verbatim>\<open>undefined\<close>.
\<close>

definition bearer_token :: "req \<Rightarrow> string option" where
  "bearer_token r =
     (let authHeader = (case authorization r of None \<Rightarrow> [] | Some h \<Rightarrow> h);
          parts = str_split CHR '' '' authHeader
      in if 1 < length parts then Some (parts ! 1) else None)"

text \<open>
  The middleware. \<open>Inr r'\<close>: \<^verbatim>\<open>next()\<close> was called with the request in state \<open>r'\<close>;
  \<open>Inl e\<close>: the middleware threw \<open>e\<close>.
\<close>

definition isAuth :: "(string \<Rightarrow> jwt_error + payload) \<Rightarrow> req \<Rightarrow> error + req" where
  "isAuth jwt_verify r =
     (case bearer_token r of
        None \<Rightarrow> Inr r
      | Some token \<Rightarrow>
          if token = [] then Inr r
          else (case jwt_verify token of
                  Inr decoded \<Rightarrow>
                    Inr (r\<lparr>req_isAuth := Some True, req_userId := payload_userId decoded\<rparr>)
                | Inl err \<Rightarrow> Inr (r\<lparr>req_isAuth := Some False\<rparr>)))"

text \<open>\<^verbatim>\<open>!req.isAuth\<close> is false exactly when the property is \<^verbatim>\<open>true\<close>.\<close>

definition authenticated :: "req \<Rightarrow> bool" where
  "authenticated r = (req_isAuth r = Some True)"

section \<open>Queries of the models\<close>

text \<open>
  \<^verbatim>\<open>User.findById(req.userId)\<close>; an \<^verbatim>\<open>undefined\<close> id finds nothing. The id of a
  request is the one that a verified token carries, which \<^verbatim>\<open>login\<close> read from the
  \<^verbatim>\<open>_id\<close> of a stored user: it is compared as it is.
\<close>

definition User_findById :: "db \<Rightarrow> oid option \<Rightarrow> user_doc option" where
  "User_findById d i =
     (case i of None \<Rightarrow> None | Some k \<Rightarrow> find (\<lambda>u. user_id u = k) (user_coll d))"

text \<open>\<^verbatim>\<open>User.findOne({ email })\<close>.\<close>

definition User_findOne :: "db \<Rightarrow> string \<Rightarrow> user_doc option" where
  "User_findOne d em = find (\<lambda>u. email u = em) (user_coll d)"

text \<open>
  The cast of a string to an ObjectId, which Mongoose applies to the argument of
  \<^verbatim>\<open>findById\<close> and to a string that is pushed to an array of ObjectIds or set as a
  field of that type (Mongoose is not part of the repository): a string of 24
  hexadecimal digits casts to the id that they spell, letters of either case; any other
  string does not cast (\<open>None\<close>).
\<close>

definition hex_digit :: "char \<Rightarrow> bool" where
  "hex_digit c = (c \<in> set ''0123456789abcdefABCDEF'')"

definition lower_hex :: "char \<Rightarrow> char" where
  "lower_hex c =
     (if c = CHR ''A'' then CHR ''a'' else if c = CHR ''B'' then CHR ''b''
      else if c = CHR ''C'' then CHR ''c'' else if c = CHR ''D'' then CHR ''d''
      else if c = CHR ''E'' then CHR ''e'' else if c = CHR ''F'' then CHR ''f'' else c)"

definition castObjectId :: "string \<Rightarrow> oid option" where
  "castObjectId s =
     (if length s = 24 \<and> list_all hex_digit s then Some (map lower_hex s) else None)"

text \<open>The course of a stored id, as \<^verbatim>\<open>populate\<close> and \<^verbatim>\<open>findById\<close> look it up.\<close>

definition Course_byId :: "db \<Rightarrow> oid \<Rightarrow> course_doc option" where
  "Course_byId d k = find (\<lambda>c. course_id c = k) (course_coll d)"

text \<open>
  \<^verbatim>\<open>Course.findById(courseId)\<close>: the string is cast first; one that does not cast
  throws, one that casts finds the course of the id or \<^verbatim>\<open>null\<close>.
\<close>

definition Course_findById :: "db \<Rightarrow> string \<Rightarrow> error + course_doc option" where
  "Course_findById d courseId =
     (case castObjectId courseId of
        None \<Rightarrow> Inl CastError
      | Some k \<Rightarrow> Inr (Course_byId d k))"

text \<open>\<^verbatim>\<open>Course.find()\<close> (\<open>None\<close>) and \<^verbatim>\<open>Course.find({ category })\<close>.\<close>

definition Course_find :: "db \<Rightarrow> string option \<Rightarrow> course_doc list" where
  "Course_find d flt =
     (case flt of
        None \<Rightarrow> course_coll d
      | Some c \<Rightarrow> filter (\<lambda>x. category x = Some c) (course_coll d))"

text \<open>Replaces the first element that satisfies \<open>P\<close>: an update of one document.\<close>

fun replace_first :: "('a \<Rightarrow> bool) \<Rightarrow> 'a \<Rightarrow> 'a list \<Rightarrow> 'a list" where
  "replace_first P y [] = []"
| "replace_first P y (x # xs) = (if P x then y # xs else x # replace_first P y xs)"

text \<open>\<^verbatim>\<open>doc.save()\<close> of a document that was loaded from the collection.\<close>

definition User_save :: "db \<Rightarrow> user_doc \<Rightarrow> db" where
  "User_save d u =
     d\<lparr>user_coll := replace_first (\<lambda>x. user_id x = user_id u) u (user_coll d)\<rparr>"

definition Course_save :: "db \<Rightarrow> course_doc \<Rightarrow> db" where
  "Course_save d c =
     d\<lparr>course_coll := replace_first (\<lambda>x. course_id x = course_id c) c (course_coll d)\<rparr>"

text \<open>
  \<^verbatim>\<open>doc.save()\<close> of a new document: an insert, which the unique indexes on
  \<^verbatim>\<open>_id\<close> and \<^verbatim>\<open>email\<close> can refuse.
\<close>

definition User_insert :: "db \<Rightarrow> user_doc \<Rightarrow> (error + user_doc) \<times> db" where
  "User_insert d u =
     (if list_ex (\<lambda>x. user_id x = user_id u \<or> email x = email u) (user_coll d)
      then (Inl MongoServerError, d)
      else (Inr u, d\<lparr>user_coll := user_coll d @ [u]\<rparr>))"

section \<open>The resolvers (server.js, lines 116-172)\<close>

text \<open>
  A resolver takes the database, its arguments and the request, and returns what it
  resolves to, or the error it throws, with the database after it.
\<close>

text \<open>\<^verbatim>\<open>category ? await Course.find({ category }) : await Course.find()\<close>\<close>

definition courses :: "db \<Rightarrow> string option \<Rightarrow> req \<Rightarrow> (error + course_doc list) \<times> db" where
  "courses d cat r =
     (if cat \<noteq> None \<and> cat \<noteq> Some []
      then (Inr (Course_find d cat), d)
      else (Inr (Course_find d None), d))"

text \<open>
  \<^verbatim>\<open>populate('enrolledCourses')\<close> replaces each id by its course and drops the ids
  that find none.
\<close>

definition myCourses :: "db \<Rightarrow> req \<Rightarrow> (error + course_doc list) \<times> db" where
  "myCourses d r =
     (if \<not> authenticated r then (Inl Unauthorized, d)
      else (case User_findById d (req_userId r) of
              None \<Rightarrow> (Inl TypeError, d)
            | Some user \<Rightarrow>
                (Inr (List.map_filter (Course_byId d) (enrolledCourses user)), d)))"

text \<open>
  \<^verbatim>\<open>user.progress.find(p => p.course._id.toString() === courseId)\<close> after
  \<^verbatim>\<open>populate('progress.course')\<close>: a record whose course is not stored has
  \<^verbatim>\<open>p.course\<close> null, and reading \<^verbatim>\<open>_id\<close> of it throws.
\<close>

fun find_populated :: "db \<Rightarrow> oid \<Rightarrow> progress_doc list \<Rightarrow> error + progress_doc option" where
  "find_populated d courseId [] = Inr None"
| "find_populated d courseId (p # ps) =
     (case Course_byId d (course p) of
        None \<Rightarrow> Inl TypeError
      | Some c \<Rightarrow> if course_id c = courseId then Inr (Some p) else find_populated d courseId ps)"

definition myProgress :: "db \<Rightarrow> oid \<Rightarrow> req \<Rightarrow> (error + progress_doc option) \<times> db" where
  "myProgress d courseId r =
     (if \<not> authenticated r then (Inl Unauthorized, d)
      else (case User_findById d (req_userId r) of
              None \<Rightarrow> (Inl TypeError, d)
            | Some user \<Rightarrow> (find_populated d courseId (progress user), d)))"

text \<open>
  \<open>newId\<close> is the ObjectId that \<^verbatim>\<open>new User(...)\<close> generates; the two arrays of the
  schema default to empty.
\<close>

definition register :: "db \<Rightarrow> string \<Rightarrow> string \<Rightarrow> string \<Rightarrow> oid \<Rightarrow> (error + user_doc) \<times> db" where
  "register d nm em pw newId =
     (case User_findOne d em of
        Some existingUser \<Rightarrow> (Inl DuplicateEmail, d)
      | None \<Rightarrow>
          User_insert d
            \<lparr>user_id = newId, name = nm, email = em, password = pw,
             enrolledCourses = [], progress = []\<rparr>)"

record authdata =
  auth_token :: string
  auth_userId :: oid

definition login :: "(payload \<Rightarrow> string) \<Rightarrow> db \<Rightarrow> string \<Rightarrow> string \<Rightarrow> (error + authdata) \<times> db" where
  "login jwt_sign d em pw =
     (case User_findOne d em of
        None \<Rightarrow> (Inl InvalidCredentials, d)
      | Some user \<Rightarrow>
          if password user \<noteq> pw then (Inl InvalidCredentials, d)
          else (let token = jwt_sign \<lparr>payload_userId = Some (user_id user)\<rparr>
                in (Inr \<lparr>auth_token = token, auth_userId = user_id user\<rparr>, d)))"

text \<open>
  \<^verbatim>\<open>enroll\<close>, lines 147-160. The user is loaded, then the course: the lookup of the
  course casts \<^verbatim>\<open>courseId\<close> and throws when it does not cast. The test
  \<^verbatim>\<open>user.enrolledCourses.includes(courseId)\<close> compares the string \<^verbatim>\<open>courseId\<close>
  as it was sent with the string form of each listed id. The pushes to
  \<^verbatim>\<open>user.enrolledCourses\<close> and \<^verbatim>\<open>user.progress\<close> cast \<^verbatim>\<open>courseId\<close>: what is
  stored is the id, not the string sent. The three pushes change the loaded documents in
  memory; only the two saves write them. With no stored course, the second push throws
  after the first changed the loaded user, and nothing is saved. The resolver returns the
  loaded course, which is \<^verbatim>\<open>null\<close> (\<open>None\<close>) when no course has the id and the
  test finds the string listed.
\<close>

definition enroll :: "db \<Rightarrow> string \<Rightarrow> req \<Rightarrow> (error + course_doc option) \<times> db" where
  "enroll d courseId r =
     (if \<not> authenticated r then (Inl Unauthorized, d)
      else (let found = User_findById d (req_userId r)
            in (case Course_findById d courseId of
                  Inl e \<Rightarrow> (Inl e, d)
                | Inr crs \<Rightarrow>
                    (case found of
                       None \<Rightarrow> (Inl TypeError, d)
                     | Some user \<Rightarrow>
                         (if courseId \<notin> set (enrolledCourses user) then
                            (case castObjectId courseId of
                               None \<Rightarrow> (Inl CastError, d)
                             | Some k \<Rightarrow>
                                 (case crs of
                                    None \<Rightarrow> (Inl TypeError, d)
                                  | Some c \<Rightarrow>
                                      (let user' = user
                                             \<lparr>enrolledCourses := enrolledCourses user @ [k],
                                              progress := progress user @
                                                [\<lparr>course = k, completedLessons = []\<rparr>]\<rparr>;
                                           c' = c
                                             \<lparr>enrolledStudents :=
                                                enrolledStudents c @ [user_id user]\<rparr>
                                       in (Inr (Some c'),
                                           Course_save (User_save d user') c'))))
                          else (Inr crs, d))))))"


text \<open>
  \<^verbatim>\<open>user.progress.find(...)\<close> returns the first matching element of the array, which
  the push changes in place, or \<^verbatim>\<open>undefined\<close>, and reading
  \<^verbatim>\<open>completedLessons\<close> of that throws.
\<close>

definition completeLesson :: "db \<Rightarrow> oid \<Rightarrow> string \<Rightarrow> req \<Rightarrow> (error + progress_doc) \<times> db" where
  "completeLesson d courseId lesson r =
     (if \<not> authenticated r then (Inl Unauthorized, d)
      else (case User_findById d (req_userId r) of
              None \<Rightarrow> (Inl TypeError, d)
            | Some user \<Rightarrow>
                (case find (\<lambda>p. course p = courseId) (progress user) of
                   None \<Rightarrow> (Inl TypeError, d)
                 | Some prog \<Rightarrow>
                     (let prog' =
                            (if lesson \<notin> set (completedLessons prog)
                             then prog\<lparr>completedLessons := completedLessons prog @ [lesson]\<rparr>
                             else prog);
                          user' = user
                            \<lparr>progress :=
                               replace_first (\<lambda>p. course p = courseId) prog' (progress user)\<rparr>
                      in (Inr prog', User_save d user')))))"

section \<open>Requests and runs\<close>

text \<open>
  One field of a GraphQL request with its arguments. \<open>Register\<close> carries, last, the
  ObjectId generated for the new user.
\<close>

datatype request =
    Courses "string option"
  | MyCourses
  | MyProgress oid
  | Register string string string oid
  | Login string string
  | Enroll string
  | CompleteLesson oid string

text \<open>The database after one request, resolved in the context \<open>r\<close>.\<close>

fun exec :: "(payload \<Rightarrow> string) \<Rightarrow> db \<Rightarrow> req \<times> request \<Rightarrow> db" where
  "exec jwt_sign d (r, Courses cat) = snd (courses d cat r)"
| "exec jwt_sign d (r, MyCourses) = snd (myCourses d r)"
| "exec jwt_sign d (r, MyProgress courseId) = snd (myProgress d courseId r)"
| "exec jwt_sign d (r, Register nm em pw newId) = snd (register d nm em pw newId)"
| "exec jwt_sign d (r, Login em pw) = snd (login jwt_sign d em pw)"
| "exec jwt_sign d (r, Enroll courseId) = snd (enroll d courseId r)"
| "exec jwt_sign d (r, CompleteLesson courseId lesson) = snd (completeLesson d courseId lesson r)"

definition run :: "(payload \<Rightarrow> string) \<Rightarrow> db \<Rightarrow> (req \<times> request) list \<Rightarrow> db" where
  "run jwt_sign d qs = foldl (exec jwt_sign) d qs"

text \<open>
  The progress record that \<^verbatim>\<open>completeLesson\<close> and \<^verbatim>\<open>myProgress\<close> look up
  for a user and a course: the first record of the course in the progress array of the
  user with the id.
\<close>

definition progress_of :: "db \<Rightarrow> oid \<Rightarrow> oid \<Rightarrow> progress_doc option" where
  "progress_of d uid courseId =
     (case User_findById d (Some uid) of
        None \<Rightarrow> None
      | Some u \<Rightarrow> find (\<lambda>p. course p = courseId) (progress u))"

text \<open>
  The lessons of the \<^verbatim>\<open>completeLesson\<close> requests of a run that are made for the
  course by the authenticated user, in the order of the requests.
\<close>

fun lessons_by :: "oid \<Rightarrow> oid \<Rightarrow> (req \<times> request) list \<Rightarrow> string list" where
  "lessons_by uid courseId [] = []"
| "lessons_by uid courseId ((r, CompleteLesson c l) # qs) =
     (if authenticated r \<and> req_userId r = Some uid \<and> c = courseId
      then l # lessons_by uid courseId qs else lessons_by uid courseId qs)"
| "lessons_by uid courseId (q # qs) = lessons_by uid courseId qs"

text \<open>Lines 166-168 on the array alone: the lesson is pushed unless the array includes it.\<close>

definition push_new :: "string list \<Rightarrow> string \<Rightarrow> string list" where
  "push_new acc l = (if l \<in> set acc then acc else acc @ [l])"

section \<open>Distinct ids\<close>

text \<open>
  The ids of each collection are distinct, as \<^verbatim>\<open>_id\<close> is in MongoDB, and so are the
  emails (the schema declares \<^verbatim>\<open>email\<close> unique).
\<close>

definition ids_distinct :: "db \<Rightarrow> bool" where
  "ids_distinct d =
     (distinct (map user_id (user_coll d)) \<and> distinct (map email (user_coll d)) \<and>
      distinct (map course_id (course_coll d)))"

section \<open>Growth of a database\<close>

text \<open>
  \<open>ys\<close> has at each position of \<open>xs\<close> an element related to the one of \<open>xs\<close>, and
  may have more after them.
\<close>

definition list_grows :: "('a \<Rightarrow> 'a \<Rightarrow> bool) \<Rightarrow> 'a list \<Rightarrow> 'a list \<Rightarrow> bool" where
  "list_grows R xs ys = (length xs \<le> length ys \<and> list_all2 R xs (take (length xs) ys))"

text \<open>The same course, and the completed lessons of before, in their order, first.\<close>

definition progress_grows :: "progress_doc \<Rightarrow> progress_doc \<Rightarrow> bool" where
  "progress_grows p p' =
     (course p' = course p \<and> prefix (completedLessons p) (completedLessons p'))"

definition user_grows :: "user_doc \<Rightarrow> user_doc \<Rightarrow> bool" where
  "user_grows u u' =
     (user_id u' = user_id u \<and> list_grows progress_grows (progress u) (progress u'))"

definition course_grows :: "course_doc \<Rightarrow> course_doc \<Rightarrow> bool" where
  "course_grows c c' = (course_id c' = course_id c)"

definition db_grows :: "db \<Rightarrow> db \<Rightarrow> bool" where
  "db_grows d d' =
     (list_grows user_grows (user_coll d) (user_coll d') \<and>
      list_grows course_grows (course_coll d) (course_coll d'))"

section \<open>A small database\<close>

text \<open>
  Ann has registered and is enrolled nowhere; Bea is enrolled in the one course and has
  completed its first lesson. The requests are those of Ann and of Bea after the
  middleware accepted their tokens.
\<close>

definition ann :: user_doc where
  "ann = \<lparr>user_id = ''0000000000000000000000a1'', name = ''Ann'', email = ''ann@x.com'', password = ''pw1'',
          enrolledCourses = [], progress = []\<rparr>"

definition algebra :: course_doc where
  "algebra = \<lparr>course_id = ''0000000000000000000000c1'', title = ''Algebra'', description = ''Groups'',
              category = Some ''math'', lessons = [''lesson1'', ''lesson2''], quizzes = [],
              enrolledStudents = []\<rparr>"

definition db_ann :: db where
  "db_ann = \<lparr>user_coll = [ann], course_coll = [algebra]\<rparr>"

definition req_ann :: req where
  "req_ann = \<lparr>authorization = Some ''Bearer t1'', req_isAuth = Some True, req_userId = Some ''0000000000000000000000a1''\<rparr>"


definition bea :: user_doc where
  "bea = \<lparr>user_id = ''0000000000000000000000b2'', name = ''Bea'', email = ''bea@x.com'', password = ''pw2'',
          enrolledCourses = [''0000000000000000000000c1''],
          progress = [\<lparr>course = ''0000000000000000000000c1'', completedLessons = [''lesson1'']\<rparr>]\<rparr>"

definition algebra_bea :: course_doc where
  "algebra_bea = algebra\<lparr>enrolledStudents := [''0000000000000000000000b2'']\<rparr>"

definition db_bea :: db where
  "db_bea = \<lparr>user_coll = [ann, bea], course_coll = [algebra_bea]\<rparr>"

definition req_bea :: req where
  "req_bea = \<lparr>authorization = Some ''Bearer t2'', req_isAuth = Some True, req_userId = Some ''0000000000000000000000b2''\<rparr>"

text \<open>
  A stand-in for the two functions of jsonwebtoken, for the examples: the token of a
  user id is the id after a fixed prefix.
\<close>

definition toy_sign :: "payload \<Rightarrow> string" where
  "toy_sign p = (case payload_userId p of None \<Rightarrow> ''anon'' | Some k \<Rightarrow> ''tok-'' @ k)"

definition toy_verify :: "string \<Rightarrow> jwt_error + payload" where
  "toy_verify t =
     (if take 4 t = ''tok-'' then Inr \<lparr>payload_userId = Some (drop 4 t)\<rparr>
      else Inl JsonWebTokenError)"




text \<open>The catalog before anyone registered.\<close>

definition db_start :: db where
  "db_start = \<lparr>user_coll = [], course_coll = [algebra]\<rparr>"

section \<open>The small database unfolded\<close>

lemmas ex_defs = ann_def algebra_def db_ann_def req_ann_def db_start_def

lemmas ex2_defs = ex_defs bea_def algebra_bea_def db_bea_def req_bea_def


section \<open>Lemmas on the lists of documents\<close>

lemma find_Some_mem: "find P xs = Some x \<Longrightarrow> x \<in> set xs \<and> P x"
  by (induction xs) (auto split: if_splits)

lemma distinct_map_eq: "distinct (map f xs) \<Longrightarrow> x \<in> set xs \<Longrightarrow> y \<in> set xs \<Longrightarrow> f x = f y \<Longrightarrow> x = y"
  by (auto simp: distinct_map inj_on_def)

lemma find_distinct_key: "distinct (map f xs) \<Longrightarrow> x \<in> set xs \<Longrightarrow> find (\<lambda>y. f y = f x) xs = Some x"
  by (induction xs) (auto simp: image_iff)

lemma find_append_Some: "find P xs = Some x \<Longrightarrow> find P (xs @ ys) = Some x"
  by (induction xs) (auto split: if_splits)

lemma length_replace_first [simp]: "length (replace_first P y xs) = length xs"
  by (induction xs) auto

lemma map_replace_first_same: "(\<And>x. x \<in> set xs \<Longrightarrow> P x \<Longrightarrow> g y = g x) \<Longrightarrow> map g (replace_first P y xs) = map g xs"
  by (induction xs) auto

lemma find_replace_first: "find P xs = Some x \<Longrightarrow> P y \<Longrightarrow> find P (replace_first P y xs) = Some y"
  by (induction xs) (auto split: if_splits)

lemma find_replace_first_disjoint:
  "\<not> Q y \<Longrightarrow> (\<And>x. P x \<Longrightarrow> \<not> Q x) \<Longrightarrow> find Q (replace_first P y xs) = find Q xs"
  by (induction xs) auto

lemma list_all2_replace_found:
  "(\<And>x. x \<in> set xs \<Longrightarrow> R x x) \<Longrightarrow> (\<And>x. find P xs = Some x \<Longrightarrow> R x y) \<Longrightarrow>
   list_all2 R xs (replace_first P y xs)"
  by (induction xs) (auto simp: list.rel_refl_strong)

section \<open>Lemmas on the lookups and the saves\<close>

lemma User_findById_None [simp]: "User_findById d None = None"
  by (simp add: User_findById_def)

lemma findById_id: "User_findById d (Some k) = Some u \<Longrightarrow> user_id u = k"
  by (auto simp: User_findById_def dest: find_Some_mem)

lemma findById_mem: "User_findById d i = Some u \<Longrightarrow> u \<in> set (user_coll d)"
  by (auto simp: User_findById_def split: option.splits dest: find_Some_mem)

lemma Course_byId_mem: "Course_byId d k = Some c \<Longrightarrow> c \<in> set (course_coll d) \<and> course_id c = k"
  by (auto simp: Course_byId_def dest: find_Some_mem)

lemma User_findById_save:
  assumes "User_findById d (Some k) = Some u" and "user_id u' = k"
  shows "User_findById (User_save d u') (Some k) = Some u'"
  using assms by (simp add: User_findById_def User_save_def find_replace_first)

lemma User_findById_save_other:
  "user_id u' \<noteq> k \<Longrightarrow> User_findById (User_save d u') (Some k) = User_findById d (Some k)"
  by (simp add: User_findById_def User_save_def find_replace_first_disjoint)

lemma Course_byId_save:
  assumes "Course_byId d k = Some c" and "course_id c' = k"
  shows "Course_byId (Course_save d c') k = Some c'"
  using assms by (simp add: Course_byId_def Course_save_def find_replace_first)

lemma Course_byId_User_save [simp]: "Course_byId (User_save d u) k = Course_byId d k"
  by (simp add: Course_byId_def User_save_def)

lemma Course_findById_User_save [simp]:
  "Course_findById (User_save d u) s = Course_findById d s"
  by (simp add: Course_findById_def split: option.split)

lemma User_findById_Course_save [simp]: "User_findById (Course_save d c) i = User_findById d i"
  by (simp add: User_findById_def Course_save_def split: option.split)


text \<open>
  What \<^verbatim>\<open>enroll\<close> does when it writes: the request is authenticated, the user is
  found and does not list the string, the string casts and the course of the id is found.
\<close>

lemma enroll_cases:
  "snd (enroll d courseId r) = d \<or>
   (\<exists>u k c. authenticated r \<and> User_findById d (req_userId r) = Some u \<and>
      courseId \<notin> set (enrolledCourses u) \<and> castObjectId courseId = Some k \<and>
      Course_byId d k = Some c \<and>
      enroll d courseId r =
        (Inr (Some (c\<lparr>enrolledStudents := enrolledStudents c @ [user_id u]\<rparr>)),
         Course_save
           (User_save d
              (u\<lparr>enrolledCourses := enrolledCourses u @ [k],
                 progress := progress u @ [\<lparr>course = k, completedLessons = []\<rparr>]\<rparr>))
           (c\<lparr>enrolledStudents := enrolledStudents c @ [user_id u]\<rparr>)))"
  by (auto simp: enroll_def Let_def Course_findById_def split: option.splits)

lemma User_findOne_stored:
  assumes "ids_distinct d" and "u \<in> set (user_coll d)"
  shows "User_findOne d (email u) = Some u"
  using assms by (simp add: User_findOne_def ids_distinct_def find_distinct_key)

lemma completeLesson_found:
  assumes "authenticated r" and "User_findById d (req_userId r) = Some u"
    and "find (\<lambda>p. course p = courseId) (progress u) = Some p"
  shows "completeLesson d courseId lesson r =
     (Inr (if lesson \<notin> set (completedLessons p)
           then p\<lparr>completedLessons := completedLessons p @ [lesson]\<rparr> else p),
      User_save d (u\<lparr>progress := replace_first (\<lambda>p. course p = courseId)
        (if lesson \<notin> set (completedLessons p)
           then p\<lparr>completedLessons := completedLessons p @ [lesson]\<rparr> else p) (progress u)\<rparr>))"
  using assms by (simp add: completeLesson_def Let_def)

section \<open>Growth: lemmas\<close>

lemma list_grows_refl: "(\<And>x. x \<in> set xs \<Longrightarrow> R x x) \<Longrightarrow> list_grows R xs xs"
  by (simp add: list_grows_def list.rel_refl_strong)

lemma list_grows_append: "(\<And>x. x \<in> set xs \<Longrightarrow> R x x) \<Longrightarrow> list_grows R xs (xs @ ys)"
  by (simp add: list_grows_def list.rel_refl_strong)

lemma list_grows_replace_first:
  "(\<And>x. x \<in> set xs \<Longrightarrow> R x x) \<Longrightarrow> (\<And>x. find P xs = Some x \<Longrightarrow> R x y) \<Longrightarrow>
   list_grows R xs (replace_first P y xs)"
  by (simp add: list_grows_def list_all2_replace_found)

lemma list_grows_trans:
  assumes "\<And>x y z. R x y \<Longrightarrow> R y z \<Longrightarrow> R x z"
    and "list_grows R xs ys" and "list_grows R ys zs"
  shows "list_grows R xs zs"
proof -
  from assms(2,3) have len: "length xs \<le> length ys" "length ys \<le> length zs"
    by (simp_all add: list_grows_def)
  have "R (xs ! i) (zs ! i)" if "i < length xs" for i
  proof -
    from that len have "R (xs ! i) (ys ! i)" "R (ys ! i) (zs ! i)"
      using assms(2,3) by (auto simp: list_grows_def list_all2_conv_all_nth)
    then show ?thesis by (rule assms(1))
  qed
  with len show ?thesis
    by (simp add: list_grows_def list_all2_conv_all_nth)
qed

lemma progress_grows_refl: "progress_grows p p"
  by (simp add: progress_grows_def)

lemma progress_grows_trans: "progress_grows p q \<Longrightarrow> progress_grows q s \<Longrightarrow> progress_grows p s"
  by (auto simp: progress_grows_def)

lemma user_grows_refl: "user_grows u u"
  by (simp add: user_grows_def list_grows_refl progress_grows_refl)

lemma user_grows_trans: "user_grows u v \<Longrightarrow> user_grows v w \<Longrightarrow> user_grows u w"
  unfolding user_grows_def
  using list_grows_trans [where R = progress_grows, OF progress_grows_trans] by auto

lemma db_grows_refl: "db_grows d d"
  by (simp add: db_grows_def list_grows_refl user_grows_refl course_grows_def)

lemma db_grows_trans: "db_grows d e \<Longrightarrow> db_grows e f \<Longrightarrow> db_grows d f"
  unfolding db_grows_def
  using list_grows_trans [where R = user_grows, OF user_grows_trans]
    list_grows_trans [where R = course_grows]
  by (auto simp: course_grows_def)

lemma User_save_grows:
  assumes "User_findById d k = Some u" and "user_grows u u'"
  shows "db_grows d (User_save d u')"
proof -
  from assms(1) have f: "find (\<lambda>x. user_id x = user_id u) (user_coll d) = Some u"
    by (auto simp: User_findById_def split: option.splits dest: find_Some_mem)
  from assms(2) have i: "user_id u' = user_id u" by (simp add: user_grows_def)
  have "list_grows user_grows (user_coll d)
          (replace_first (\<lambda>x. user_id x = user_id u) u' (user_coll d))"
    using f assms(2) by (intro list_grows_replace_first) (simp_all add: user_grows_refl)
  then show ?thesis
    by (simp add: db_grows_def User_save_def i list_grows_refl course_grows_def)
qed

lemma Course_save_grows:
  assumes "Course_byId d k = Some c" and "course_id c' = course_id c"
  shows "db_grows d (Course_save d c')"
proof -
  from assms(1) have f: "find (\<lambda>x. course_id x = course_id c) (course_coll d) = Some c"
    by (auto simp: Course_byId_def dest: find_Some_mem)
  have "list_grows course_grows (course_coll d)
          (replace_first (\<lambda>x. course_id x = course_id c) c' (course_coll d))"
    using f assms(2) by (intro list_grows_replace_first) (simp_all add: course_grows_def)
  then show ?thesis
    by (simp add: db_grows_def Course_save_def assms(2) list_grows_refl user_grows_refl)
qed

lemma register_grows: "db_grows d (snd (register d nm em pw newId))"
  by (auto simp: register_def User_insert_def db_grows_def list_grows_refl list_grows_append
      user_grows_refl course_grows_def split: option.split)

lemma enroll_grows: "db_grows d (snd (enroll d courseId r))"
proof -
  have "db_grows d (Course_save (User_save d (u\<lparr>enrolledCourses := ec, progress := progress u @ ps\<rparr>))
          (c\<lparr>enrolledStudents := es\<rparr>))"
    if u: "User_findById d j = Some u" and c: "Course_byId d k = Some c"
    for u c ec ps es j k
  proof -
    let ?d1 = "User_save d (u\<lparr>enrolledCourses := ec, progress := progress u @ ps\<rparr>)"
    have "db_grows d ?d1"
      using u by (rule User_save_grows)
        (simp add: user_grows_def list_grows_append progress_grows_refl)
    moreover have "Course_byId ?d1 k = Some c"
      using c by simp
    then have "db_grows ?d1 (Course_save ?d1 (c\<lparr>enrolledStudents := es\<rparr>))"
      by (rule Course_save_grows) simp
    ultimately show ?thesis by (rule db_grows_trans)
  qed
  with enroll_cases [of d courseId r] show ?thesis
    by (auto simp: db_grows_refl)
qed

lemma completeLesson_grows: "db_grows d (snd (completeLesson d courseId lesson r))"
proof -
  have "db_grows d (User_save d (u\<lparr>progress := replace_first (\<lambda>p. course p = courseId) p' (progress u)\<rparr>))"
    if u: "User_findById d k = Some u"
      and "find (\<lambda>p. course p = courseId) (progress u) = Some p"
      and "p' = p \<or> p' = p\<lparr>completedLessons := completedLessons p @ [lesson]\<rparr>" for u p p' k
  proof -
    have "list_grows progress_grows (progress u)
            (replace_first (\<lambda>p. course p = courseId) p' (progress u))"
      using that(2,3)
      by (intro list_grows_replace_first) (auto simp: progress_grows_def)
    then show ?thesis
      using u by (intro User_save_grows [where u = u and k = k]) (simp_all add: user_grows_def)
  qed
  then show ?thesis
    by (auto simp: completeLesson_def Let_def db_grows_refl split: option.split)
qed

lemma exec_grows: "db_grows d (exec jwt_sign d q)"
proof (cases q)
  case (Pair r a)
  then show ?thesis
    by (cases a)
      (simp_all add: courses_def myCourses_def myProgress_def login_def db_grows_refl
        register_grows enroll_grows completeLesson_grows Let_def split: option.split)
qed

section \<open>The progress record of a user along a run: lemmas\<close>

lemma progress_of_Course_save [simp]: "progress_of (Course_save d c) uid k = progress_of d uid k"
  by (simp add: progress_of_def User_findById_def Course_save_def)

lemma progress_of_save_other:
  "user_id u' \<noteq> uid \<Longrightarrow> progress_of (User_save d u') uid k = progress_of d uid k"
  by (simp add: progress_of_def User_findById_save_other)

lemma progress_of_save_same:
  assumes "User_findById d (Some uid) = Some u" and "user_id u' = uid"
  shows "progress_of (User_save d u') uid k = find (\<lambda>p. course p = k) (progress u')"
  using assms by (simp add: progress_of_def User_findById_save)

lemma register_progress_of:
  assumes "progress_of d uid k = Some p"
  shows "progress_of (snd (register d nm em pw newId)) uid k = Some p"
  using assms
  by (auto simp: register_def User_insert_def progress_of_def User_findById_def find_append_Some
      split: option.splits)

lemma enroll_progress_of:
  assumes "progress_of d uid k = Some p"
  shows "progress_of (snd (enroll d courseId r)) uid k = Some p"
proof -
  have "progress_of (User_save d (u\<lparr>enrolledCourses := ec, progress := progress u @ ps\<rparr>)) uid k = Some p"
    if u: "User_findById d (Some j) = Some u" for u ec ps j
  proof (cases "j = uid")
    case True
    with u assms have "find (\<lambda>p. course p = k) (progress u) = Some p"
      by (simp add: progress_of_def)
    then show ?thesis
      using u True findById_id [OF u]
      by (simp add: progress_of_save_same find_append_Some)
  next
    case False
    then show ?thesis
      using assms findById_id [OF u] by (simp add: progress_of_save_other)
  qed
  with enroll_cases [of d courseId r] assms show ?thesis
    by (cases "req_userId r") auto
qed

lemma completeLesson_progress_of:
  assumes "progress_of d uid k = Some p"
  shows "\<exists>p'. progress_of (snd (completeLesson d c l r)) uid k = Some p' \<and>
           completedLessons p' =
             (if authenticated r \<and> req_userId r = Some uid \<and> c = k
              then push_new (completedLessons p) l else completedLessons p)"
proof (cases "authenticated r")
  case False
  with assms show ?thesis by (simp add: completeLesson_def)
next
  case auth: True
  show ?thesis
  proof (cases "User_findById d (req_userId r)")
    case None
    with assms auth have "req_userId r \<noteq> Some uid"
      by (auto simp: progress_of_def)
    with None assms auth show ?thesis by (simp add: completeLesson_def)
  next
    case (Some u)
    then obtain j where j: "req_userId r = Some j"
      by (cases "req_userId r") (simp_all add: User_findById_def)
    note uj = findById_id [OF Some [unfolded j]]
    show ?thesis
    proof (cases "find (\<lambda>p. course p = c) (progress u)")
      case None
      have "\<not> (req_userId r = Some uid \<and> c = k)"
        using None Some assms j by (auto simp: progress_of_def)
      with None Some assms auth show ?thesis by (auto simp: completeLesson_def)
    next
      case (Some q)
      let ?q' = "if l \<notin> set (completedLessons q)
                 then q\<lparr>completedLessons := completedLessons q @ [l]\<rparr> else q"
      let ?u' = "u\<lparr>progress := replace_first (\<lambda>p. course p = c) ?q' (progress u)\<rparr>"
      have cl: "completeLesson d c l r = (Inr ?q', User_save d ?u')"
        by (rule completeLesson_found [OF auth \<open>User_findById d (req_userId r) = Some u\<close> Some])
      have cq: "course ?q' = c" using Some by (auto dest: find_Some_mem)
      show ?thesis
      proof (cases "j = uid")
        case False
        with assms uj j show ?thesis
          by (simp add: cl progress_of_save_other)
      next
        case True
        have pu: "find (\<lambda>p. course p = k) (progress u) = Some p"
          using assms \<open>User_findById d (req_userId r) = Some u\<close> j True
          by (simp add: progress_of_def)
        have po: "progress_of (User_save d ?u') uid k = find (\<lambda>p. course p = k) (progress ?u')"
          using \<open>User_findById d (req_userId r) = Some u\<close> j True uj
          by (intro progress_of_save_same [where u = u]) simp_all
        show ?thesis
        proof (cases "c = k")
          case False
          then have "find (\<lambda>p. course p = k) (progress ?u') = Some p"
            using pu cq by (simp add: find_replace_first_disjoint)
          with False show ?thesis by (simp add: cl po)
        next
          case ck: True
          with pu Some have qp: "q = p" by simp
          have "find (\<lambda>p. course p = k) (progress ?u') = Some ?q'"
            using pu cq ck by (simp add: find_replace_first)
          then have "progress_of (snd (completeLesson d c l r)) uid k = Some ?q'"
            by (simp only: cl po snd_conv)
          moreover have "completedLessons ?q' = push_new (completedLessons p) l"
            by (simp add: qp push_new_def)
          moreover have "authenticated r \<and> req_userId r = Some uid \<and> c = k"
            using auth j True ck by simp
          ultimately show ?thesis by (intro exI [of _ ?q']) (simp only: if_True simp_thms)
        qed
      qed
    qed
  qed
qed

lemma exec_progress_of:
  assumes "progress_of d uid k = Some p"
  shows "\<exists>p'. progress_of (exec jwt_sign d q) uid k = Some p' \<and>
           completedLessons p' = foldl push_new (completedLessons p) (lessons_by uid k [q])"
proof (cases q)
  case (Pair r a)
  show ?thesis
  proof (cases a)
    case (CompleteLesson c l)
    with Pair completeLesson_progress_of [OF assms, of c l r] show ?thesis
      by auto
  qed (use assms Pair in \<open>simp_all add: courses_def myCourses_def myProgress_def login_def
        register_progress_of enroll_progress_of Let_def split: option.split\<close>)
qed

lemma lessons_by_Cons: "lessons_by uid k (q # qs) = lessons_by uid k [q] @ lessons_by uid k qs"
proof (cases q)
  case (Pair r a)
  then show ?thesis by (cases a) simp_all
qed

lemma run_progress_of:
  assumes "progress_of d uid k = Some p"
  shows "\<exists>p'. progress_of (run jwt_sign d qs) uid k = Some p' \<and>
           completedLessons p' = foldl push_new (completedLessons p) (lessons_by uid k qs)"
  using assms unfolding run_def
proof (induction qs arbitrary: d p)
  case Nil
  then show ?case by simp
next
  case (Cons q qs)
  from exec_progress_of [OF Cons.prems, of jwt_sign q] obtain p1 where
    p1: "progress_of (exec jwt_sign d q) uid k = Some p1"
      "completedLessons p1 = foldl push_new (completedLessons p) (lessons_by uid k [q])"
    by blast
  from Cons.IH [OF p1(1)] obtain p' where
    "progress_of (foldl (exec jwt_sign) (exec jwt_sign d q) qs) uid k = Some p'"
    "completedLessons p' = foldl push_new (completedLessons p1) (lessons_by uid k qs)"
    by blast
  then show ?case
    using p1(2) by (subst lessons_by_Cons) simp
qed

lemma foldl_push_new:
  "foldl push_new acc ls = acc @ rev (remdups (rev (filter (\<lambda>l. l \<notin> set acc) ls)))"
  by (induction ls rule: rev_induct) (auto simp: push_new_def)

lemma distinct_foldl_push_new: "distinct acc \<Longrightarrow> distinct (foldl push_new acc ls)"
  by (auto simp: foldl_push_new)

section \<open>Distinct ids: every request keeps them\<close>

lemma ids_distinct_User_save:
  assumes "ids_distinct d" and "User_findById d j = Some u"
    and "user_id u' = user_id u" and "email u' = email u"
  shows "ids_distinct (User_save d u')"
proof -
  from assms(2) have um: "u \<in> set (user_coll d)" by (rule findById_mem)
  from assms(1) have du: "distinct (map user_id (user_coll d))"
    by (simp add: ids_distinct_def)
  have same: "x = u" if "x \<in> set (user_coll d)" "user_id x = user_id u'" for x
    using distinct_map_eq [OF du that(1) um] that(2) assms(3) by simp
  have "map user_id (replace_first (\<lambda>x. user_id x = user_id u') u' (user_coll d)) =
          map user_id (user_coll d)"
    by (rule map_replace_first_same) simp
  moreover have "map email (replace_first (\<lambda>x. user_id x = user_id u') u' (user_coll d)) =
          map email (user_coll d)"
    by (rule map_replace_first_same) (use same assms(4) in auto)
  ultimately show ?thesis
    using assms(1) by (simp add: ids_distinct_def User_save_def)
qed

lemma ids_distinct_Course_save:
  assumes "ids_distinct d"
  shows "ids_distinct (Course_save d c')"
proof -
  have "map course_id (replace_first (\<lambda>x. course_id x = course_id c') c' (course_coll d)) =
          map course_id (course_coll d)"
    by (rule map_replace_first_same) simp
  with assms show ?thesis by (simp add: ids_distinct_def Course_save_def)
qed

lemma ids_distinct_register:
  assumes "ids_distinct d"
  shows "ids_distinct (snd (register d nm em pw newId))"
proof (cases "User_findOne d em")
  case (Some a)
  with assms show ?thesis by (simp add: register_def)
next
  case None
  show ?thesis
  proof (cases "list_ex (\<lambda>x. user_id x = newId \<or> email x = em) (user_coll d)")
    case True
    with None assms show ?thesis by (simp add: register_def User_insert_def)
  next
    case False
    then have "newId \<notin> user_id ` set (user_coll d)" "em \<notin> email ` set (user_coll d)"
      by (auto simp: list_ex_iff)
    with None False assms show ?thesis
      by (simp add: register_def User_insert_def ids_distinct_def)
  qed
qed

lemma ids_distinct_enroll:
  assumes "ids_distinct d"
  shows "ids_distinct (snd (enroll d courseId r))"
proof -
  from enroll_cases [of d courseId r] show ?thesis
  proof
    assume "snd (enroll d courseId r) = d"
    with assms show ?thesis by simp
  next
    assume "\<exists>u k c. authenticated r \<and> User_findById d (req_userId r) = Some u \<and>
      courseId \<notin> set (enrolledCourses u) \<and> castObjectId courseId = Some k \<and>
      Course_byId d k = Some c \<and>
      enroll d courseId r =
        (Inr (Some (c\<lparr>enrolledStudents := enrolledStudents c @ [user_id u]\<rparr>)),
         Course_save
           (User_save d
              (u\<lparr>enrolledCourses := enrolledCourses u @ [k],
                 progress := progress u @ [\<lparr>course = k, completedLessons = []\<rparr>]\<rparr>))
           (c\<lparr>enrolledStudents := enrolledStudents c @ [user_id u]\<rparr>))"
    then obtain u k c where fu: "User_findById d (req_userId r) = Some u"
      and e: "snd (enroll d courseId r) =
         Course_save
           (User_save d
              (u\<lparr>enrolledCourses := enrolledCourses u @ [k],
                 progress := progress u @ [\<lparr>course = k, completedLessons = []\<rparr>]\<rparr>))
           (c\<lparr>enrolledStudents := enrolledStudents c @ [user_id u]\<rparr>)"
      by auto
    show ?thesis
      unfolding e
      by (rule ids_distinct_Course_save, rule ids_distinct_User_save [OF assms fu]) simp_all
  qed
qed

lemma ids_distinct_completeLesson:
  assumes "ids_distinct d"
  shows "ids_distinct (snd (completeLesson d courseId lesson r))"
proof (cases "authenticated r \<and> (\<exists>u p. User_findById d (req_userId r) = Some u \<and>
    find (\<lambda>p. course p = courseId) (progress u) = Some p)")
  case False
  then have "snd (completeLesson d courseId lesson r) = d"
    by (auto simp: completeLesson_def split: option.splits)
  with assms show ?thesis by simp
next
  case True
  then obtain u p where auth: "authenticated r" and fu: "User_findById d (req_userId r) = Some u"
    and fp: "find (\<lambda>p. course p = courseId) (progress u) = Some p"
    by blast
  show ?thesis
    unfolding completeLesson_found [OF auth fu fp] snd_conv
    by (rule ids_distinct_User_save [OF assms fu]) simp_all
qed

lemma ids_distinct_exec: "ids_distinct d \<Longrightarrow> ids_distinct (exec jwt_sign d q)"
proof (cases q)
  case (Pair r a)
  assume "ids_distinct d"
  with Pair show ?thesis
    by (cases a)
      (simp_all add: courses_def myCourses_def myProgress_def login_def
        ids_distinct_register ids_distinct_enroll ids_distinct_completeLesson Let_def
        split: option.split)
qed

lemma ids_distinct_run: "ids_distinct d \<Longrightarrow> ids_distinct (run jwt_sign d qs)"
  unfolding run_def by (induction qs arbitrary: d) (simp_all add: ids_distinct_exec)

section \<open>The token of a header\<close>

lemma str_split_no_sep: "c \<notin> set t \<Longrightarrow> str_split c t = [t]"
  by (induction t) auto

lemma str_split_first: "c \<notin> set a \<Longrightarrow> str_split c (a @ c # t) = a # str_split c t"
  by (induction a) auto

text \<open>
  Every header has no space, or is a first word, a space and a second word, with
  or without a space and more after it.
\<close>

lemma header_shapes:
  "c \<notin> set s \<or>
   (\<exists>a t. c \<notin> set a \<and> c \<notin> set t \<and> (s = a @ c # t \<or> (\<exists>rest. s = a @ c # t @ c # rest)))"
proof (cases "c \<in> set s")
  case False
  then show ?thesis by simp
next
  case True
  then obtain a s' where a: "s = a @ c # s'" "c \<notin> set a"
    by (auto dest: split_list_first)
  show ?thesis
  proof (cases "c \<in> set s'")
    case False
    with a show ?thesis by blast
  next
    case True
    then obtain t rest where "s' = t @ c # rest" "c \<notin> set t"
      by (auto dest: split_list_first)
    with a show ?thesis by blast
  qed
qed

lemma bearer_token_absent:
  "bearer_token (new_req None) = None"
  "CHR '' '' \<notin> set a \<Longrightarrow> bearer_token (new_req (Some a)) = None"
  by (simp_all add: bearer_token_def new_req_def str_split_no_sep)

lemma bearer_token_second_word:
  assumes "CHR '' '' \<notin> set a" and "CHR '' '' \<notin> set t"
  shows "bearer_token (new_req (Some (a @ CHR '' '' # t))) = Some t"
    and "bearer_token (new_req (Some (a @ CHR '' '' # t @ CHR '' '' # rest))) = Some t"
  using assms
  by (simp_all add: bearer_token_def new_req_def str_split_first str_split_no_sep)

text \<open>The second word of the header is the token, whatever the first word is.\<close>

lemma bearer_token_examples:
  "bearer_token (new_req None) = None"
  "bearer_token (new_req (Some '''')) = None"
  "bearer_token (new_req (Some ''Bearer'')) = None"
  "bearer_token (new_req (Some ''Bearer '')) = Some ''''"
  "bearer_token (new_req (Some ''Bearer t1'')) = Some ''t1''"
  "bearer_token (new_req (Some ''Basic t1 t2'')) = Some ''t1''"
  by (simp_all add: bearer_token_def new_req_def)

lemma bearer_token_Bearer:
  assumes "CHR '' '' \<notin> set t"
  shows "bearer_token (new_req (Some (''Bearer '' @ t))) = Some t"
proof -
  have "str_split CHR '' '' (''Bearer'' @ CHR '' '' # t) = ''Bearer'' # str_split CHR '' '' t"
    by (rule str_split_first) simp
  then show ?thesis
    using assms by (simp add: bearer_token_def new_req_def str_split_no_sep)
qed

text \<open>
  The token that \<^verbatim>\<open>login\<close> returns, sent as a bearer token, makes the request
  authenticated as the user who logged in, when \<^verbatim>\<open>jwt.verify\<close> accepts what
  \<^verbatim>\<open>jwt.sign\<close> made and the token is one word.
\<close>

lemma isAuth_accepts_login_token:
  assumes "ids_distinct d" and "u \<in> set (user_coll d)"
    and "jwt_verify (jwt_sign \<lparr>payload_userId = Some (user_id u)\<rparr>) =
           Inr \<lparr>payload_userId = Some (user_id u)\<rparr>"
    and "fst (login jwt_sign d (email u) (password u)) = Inr a"
    and "auth_token a \<noteq> []" and "CHR '' '' \<notin> set (auth_token a)"
  shows "\<exists>r'. isAuth jwt_verify (new_req (Some (''Bearer '' @ auth_token a))) = Inr r' \<and>
           authenticated r' \<and> req_userId r' = Some (user_id u)"
proof -
  from assms(1,2,4) have "auth_token a = jwt_sign \<lparr>payload_userId = Some (user_id u)\<rparr>"
    by (auto simp: login_def User_findOne_stored)
  with assms(3) have "jwt_verify (auth_token a) = Inr \<lparr>payload_userId = Some (user_id u)\<rparr>"
    by simp
  then show ?thesis
    using assms(5) bearer_token_Bearer [OF assms(6)]
    by (simp add: isAuth_def authenticated_def)
qed

section \<open>The cast of the ids of the small database\<close>

lemma cast_examples:
  "castObjectId ''0000000000000000000000c1'' = Some ''0000000000000000000000c1''"
  "castObjectId ''0000000000000000000000C1'' = Some ''0000000000000000000000c1''"
  "castObjectId ''0000000000000000000000c9'' = Some ''0000000000000000000000c9''"
  "castObjectId ''algebra'' = None"
  by (simp_all add: castObjectId_def hex_digit_def lower_hex_def)

section \<open>The cast in enroll\<close>

text \<open>
  A course id that does not cast throws the CastError of the lookup, before the user
  is read.
\<close>

lemma enroll_CastError:
  "authenticated r \<Longrightarrow> castObjectId courseId = None \<Longrightarrow> enroll d courseId r = (Inl CastError, d)"
  by (simp add: enroll_def Course_findById_def)

text \<open>
  For a course id sent in the spelling of its string form, a second
  \<^verbatim>\<open>enroll\<close> on the database of the first returns what the first returned and
  writes nothing.
\<close>

lemma enroll_again_same_spelling:
  assumes "castObjectId courseId = Some courseId"
  shows "enroll (snd (enroll d courseId r)) courseId r =
           (fst (enroll d courseId r), snd (enroll d courseId r))"
proof -
  from enroll_cases [of d courseId r] show ?thesis
  proof
    assume "snd (enroll d courseId r) = d"
    then show ?thesis by (simp add: prod_eq_iff)
  next
    assume "\<exists>u k c. authenticated r \<and> User_findById d (req_userId r) = Some u \<and>
      courseId \<notin> set (enrolledCourses u) \<and> castObjectId courseId = Some k \<and>
      Course_byId d k = Some c \<and>
      enroll d courseId r =
        (Inr (Some (c\<lparr>enrolledStudents := enrolledStudents c @ [user_id u]\<rparr>)),
         Course_save
           (User_save d
              (u\<lparr>enrolledCourses := enrolledCourses u @ [k],
                 progress := progress u @ [\<lparr>course = k, completedLessons = []\<rparr>]\<rparr>))
           (c\<lparr>enrolledStudents := enrolledStudents c @ [user_id u]\<rparr>))"
    then obtain u k c where auth: "authenticated r"
      and fu: "User_findById d (req_userId r) = Some u"
      and k: "castObjectId courseId = Some k" and fc: "Course_byId d k = Some c"
      and e: "enroll d courseId r =
        (Inr (Some (c\<lparr>enrolledStudents := enrolledStudents c @ [user_id u]\<rparr>)),
         Course_save
           (User_save d
              (u\<lparr>enrolledCourses := enrolledCourses u @ [k],
                 progress := progress u @ [\<lparr>course = k, completedLessons = []\<rparr>]\<rparr>))
           (c\<lparr>enrolledStudents := enrolledStudents c @ [user_id u]\<rparr>))"
      by blast
    let ?u' = "u\<lparr>enrolledCourses := enrolledCourses u @ [k],
                 progress := progress u @ [\<lparr>course = k, completedLessons = []\<rparr>]\<rparr>"
    let ?c' = "c\<lparr>enrolledStudents := enrolledStudents c @ [user_id u]\<rparr>"
    let ?d1 = "Course_save (User_save d ?u') ?c'"
    from k assms have kc: "k = courseId" by simp
    obtain j where j: "req_userId r = Some j" "user_id u = j"
      using fu by (cases "req_userId r") (auto dest: findById_id)
    have 1: "User_findById ?d1 (req_userId r) = Some ?u'"
      using fu j User_findById_save [of d j u ?u'] by simp
    have "course_id c = k" using fc by (auto dest: Course_byId_mem)
    then have 2: "Course_byId ?d1 k = Some ?c'"
      using fc by (intro Course_byId_save) simp_all
    have "enroll ?d1 courseId r = (Inr (Some ?c'), ?d1)"
      using auth 1 2 k kc by (simp add: enroll_def Course_findById_def)
    then show ?thesis by (simp add: e)
  qed
qed

section \<open>The scenario of the specification\<close>

text \<open>
  Ann registers, the query for the category of the course returns the course, Ann
  enrolls twice and completes the first lesson twice: her record of the course holds the
  lesson once.
\<close>

lemma scenario_register: "register db_start ''Ann'' ''ann@x.com'' ''pw1'' ''0000000000000000000000a1'' = (Inr ann, db_ann)"
  by (simp add: register_def User_findOne_def User_insert_def ex_defs)

lemma scenario_courses: "fst (courses db_ann (Some ''math'') (new_req None)) = Inr [algebra]"
  by (simp add: courses_def Course_find_def ex_defs)

lemma scenario_run:
  "progress_of
     (run toy_sign db_start
        [(new_req None, Register ''Ann'' ''ann@x.com'' ''pw1'' ''0000000000000000000000a1''),
         (req_ann, Enroll ''0000000000000000000000c1''), (req_ann, Enroll ''0000000000000000000000c1''),
         (req_ann, CompleteLesson ''0000000000000000000000c1'' ''lesson1''),
         (req_ann, CompleteLesson ''0000000000000000000000c1'' ''lesson1'')])
     ''0000000000000000000000a1'' ''0000000000000000000000c1'' = Some \<lparr>course = ''0000000000000000000000c1'', completedLessons = [''lesson1'']\<rparr>"
  by (simp add: run_def register_def User_findOne_def User_insert_def enroll_def
      completeLesson_def authenticated_def User_findById_def Course_findById_def Course_byId_def
      cast_examples
      User_save_def Course_save_def progress_of_def Let_def ex_defs)

text \<open>\<open>db_grows\<close> excludes a lost user, course, progress record or lesson.\<close>

lemma db_grows_excludes_loss:
  "\<not> db_grows db_bea (db_bea\<lparr>user_coll := [ann]\<rparr>)"
  "\<not> db_grows db_bea (db_bea\<lparr>course_coll := []\<rparr>)"
  "\<not> db_grows db_bea (db_bea\<lparr>user_coll := [ann, bea\<lparr>progress := []\<rparr>]\<rparr>)"
  "\<not> db_grows db_bea
       (db_bea\<lparr>user_coll := [ann, bea\<lparr>progress := [\<lparr>course = ''0000000000000000000000c1'', completedLessons = []\<rparr>]\<rparr>]\<rparr>)"
  by (simp_all add: db_grows_def list_grows_def user_grows_def progress_grows_def ex2_defs)

section \<open>The claims\<close>

text \<open>
  C1. Ann, authenticated, enrolls in the stored course with its id written in upper case,
  twice. The lookup casts the string and finds the course both times; the test
  \<^verbatim>\<open>includes\<close> compares the string as it was sent with the string form of each listed
  id, which is in lower case, and finds nothing both times. After the two calls Ann
  lists the course twice and has two progress records of it, and the course lists Ann
  twice, where the specification asks for one of each.
\<close>

theorem enroll_twice_upper_case:
  "snd (enroll (snd (enroll db_ann ''0000000000000000000000C1'' req_ann))
          ''0000000000000000000000C1'' req_ann) =
     \<lparr>user_coll =
        [ann\<lparr>enrolledCourses := [''0000000000000000000000c1'', ''0000000000000000000000c1''],
             progress := [\<lparr>course = ''0000000000000000000000c1'', completedLessons = []\<rparr>,
                          \<lparr>course = ''0000000000000000000000c1'', completedLessons = []\<rparr>]\<rparr>],
      course_coll =
        [algebra\<lparr>enrolledStudents :=
           [''0000000000000000000000a1'', ''0000000000000000000000a1'']\<rparr>]\<rparr>"
  by (simp add: enroll_def authenticated_def User_findById_def Course_findById_def
      Course_byId_def User_save_def Course_save_def Let_def cast_examples ex_defs)

text \<open>
  C2. Ann is authenticated and has no progress record for the stored course:
  \<^verbatim>\<open>completeLesson\<close> throws the TypeError of reading \<^verbatim>\<open>completedLessons\<close> of
  \<^verbatim>\<open>undefined\<close>, where the spec asks for a checked error NoSuchProgress.
\<close>

theorem completeLesson_not_enrolled:
  "completeLesson db_ann ''0000000000000000000000c1'' ''lesson1'' req_ann = (Inl TypeError, db_ann)"
  by (simp add: completeLesson_def authenticated_def User_findById_def ex_defs)

text \<open>
  C3. Take a user with a progress record of a course in which no lesson is twice, and
  any run of requests, of any kind and by anyone. After the run the user still has the
  record, no lesson is twice in it, and its completed lessons are those of before, in
  their order, followed by the lessons that the user's authenticated
  \<^verbatim>\<open>completeLesson\<close> requests for the course named and that were not completed before,
  each once, in the order of the first request that named it
  (\<open>rev (remdups (rev xs))\<close> keeps the first occurrence of each element of \<open>xs\<close>).
\<close>

theorem completed_lessons_of_run:
  assumes "progress_of d uid k = Some p" and "distinct (completedLessons p)"
  shows "\<exists>p'. progress_of (run jwt_sign d qs) uid k = Some p' \<and>
           distinct (completedLessons p') \<and>
           completedLessons p' = completedLessons p @
             rev (remdups (rev (filter (\<lambda>l. l \<notin> set (completedLessons p)) (lessons_by uid k qs))))"
proof -
  from run_progress_of [OF assms(1), of jwt_sign qs] obtain p' where
    "progress_of (run jwt_sign d qs) uid k = Some p'"
    "completedLessons p' = foldl push_new (completedLessons p) (lessons_by uid k qs)"
    by blast
  then show ?thesis
    using assms(2) distinct_foldl_push_new [of "completedLessons p" "lessons_by uid k qs"]
    by (simp add: foldl_push_new)
qed

theorem completed_lessons_of_run_witness:
  "progress_of db_bea ''0000000000000000000000b2'' ''0000000000000000000000c1'' = Some \<lparr>course = ''0000000000000000000000c1'', completedLessons = [''lesson1'']\<rparr> \<and>
   distinct (completedLessons \<lparr>course = ''0000000000000000000000c1'', completedLessons = [''lesson1'']\<rparr>) \<and>
   (\<exists>p'. progress_of
      (run toy_sign db_bea
         [(req_bea, CompleteLesson ''0000000000000000000000c1'' ''lesson2''), (req_bea, CompleteLesson ''0000000000000000000000c1'' ''lesson1''),
          (req_ann, CompleteLesson ''0000000000000000000000c1'' ''lesson3''), (req_bea, CompleteLesson ''0000000000000000000000c1'' ''lesson2'')])
      ''0000000000000000000000b2'' ''0000000000000000000000c1'' = Some p' \<and>
      completedLessons p' = [''lesson1'', ''lesson2''])"
proof -
  have 1: "progress_of db_bea ''0000000000000000000000b2'' ''0000000000000000000000c1'' =
             Some \<lparr>course = ''0000000000000000000000c1'', completedLessons = [''lesson1'']\<rparr>"
    by (simp add: progress_of_def User_findById_def ex2_defs)
  have 2: "distinct (completedLessons \<lparr>course = ''0000000000000000000000c1'', completedLessons = [''lesson1'']\<rparr>)"
    by simp
  have 3: "lessons_by ''0000000000000000000000b2'' ''0000000000000000000000c1''
         [(req_bea, CompleteLesson ''0000000000000000000000c1'' ''lesson2''), (req_bea, CompleteLesson ''0000000000000000000000c1'' ''lesson1''),
          (req_ann, CompleteLesson ''0000000000000000000000c1'' ''lesson3''), (req_bea, CompleteLesson ''0000000000000000000000c1'' ''lesson2'')]
        = [''lesson2'', ''lesson1'', ''lesson2'']"
    by (simp add: authenticated_def ex2_defs)
  from completed_lessons_of_run [OF 1 2, of toy_sign
         "[(req_bea, CompleteLesson ''0000000000000000000000c1'' ''lesson2''), (req_bea, CompleteLesson ''0000000000000000000000c1'' ''lesson1''),
          (req_ann, CompleteLesson ''0000000000000000000000c1'' ''lesson3''), (req_bea, CompleteLesson ''0000000000000000000000c1'' ''lesson2'')]"]
  show ?thesis
    unfolding 3 using 1 by auto
qed

text \<open>
  C4. In a database with distinct ids and emails: for a stored user, \<^verbatim>\<open>login\<close> with
  the user's email and password returns the user's id and the token that
  \<^verbatim>\<open>jwt.sign\<close> made of that id, and if \<^verbatim>\<open>jwt.verify\<close> accepts what
  \<^verbatim>\<open>jwt.sign\<close> made of the id (the same secret, before the token expires), it
  accepts the token returned and decodes it to the same user id. With an email that no
  stored user has, or with the email of a stored user and another password,
  \<^verbatim>\<open>login\<close> throws "Invalid credentials" and returns no token.
\<close>

theorem login_roundtrip:
  assumes "ids_distinct d"
  shows "(u \<in> set (user_coll d) \<and>
          jwt_verify (jwt_sign \<lparr>payload_userId = Some (user_id u)\<rparr>) =
            Inr \<lparr>payload_userId = Some (user_id u)\<rparr> \<longrightarrow>
            (\<exists>t. login jwt_sign d (email u) (password u) =
                   (Inr \<lparr>auth_token = t, auth_userId = user_id u\<rparr>, d) \<and>
                 jwt_verify t = Inr \<lparr>payload_userId = Some (user_id u)\<rparr>)) \<and>
         (em \<notin> set (map email (user_coll d)) \<longrightarrow>
            login jwt_sign d em pw = (Inl InvalidCredentials, d)) \<and>
         (u \<in> set (user_coll d) \<and> pw \<noteq> password u \<longrightarrow>
            login jwt_sign d (email u) pw = (Inl InvalidCredentials, d))"
proof (intro conjI impI)
  assume "u \<in> set (user_coll d) \<and>
          jwt_verify (jwt_sign \<lparr>payload_userId = Some (user_id u)\<rparr>) =
            Inr \<lparr>payload_userId = Some (user_id u)\<rparr>"
  then show "\<exists>t. login jwt_sign d (email u) (password u) =
                   (Inr \<lparr>auth_token = t, auth_userId = user_id u\<rparr>, d) \<and>
                 jwt_verify t = Inr \<lparr>payload_userId = Some (user_id u)\<rparr>"
    using User_findOne_stored [OF assms, of u] by (simp add: login_def)
next
  assume "em \<notin> set (map email (user_coll d))"
  then have "User_findOne d em = None"
    by (auto simp: User_findOne_def find_None_iff)
  then show "login jwt_sign d em pw = (Inl InvalidCredentials, d)"
    by (simp add: login_def)
next
  assume "u \<in> set (user_coll d) \<and> pw \<noteq> password u"
  then show "login jwt_sign d (email u) pw = (Inl InvalidCredentials, d)"
    using User_findOne_stored [OF assms, of u] by (auto simp: login_def)
qed

theorem login_roundtrip_witness:
  "ids_distinct db_bea \<and> bea \<in> set (user_coll db_bea) \<and>
   toy_verify (toy_sign \<lparr>payload_userId = Some (user_id bea)\<rparr>) =
     Inr \<lparr>payload_userId = Some (user_id bea)\<rparr> \<and>
   (\<exists>t. login toy_sign db_bea (email bea) (password bea) =
          (Inr \<lparr>auth_token = t, auth_userId = user_id bea\<rparr>, db_bea) \<and>
        toy_verify t = Inr \<lparr>payload_userId = Some (user_id bea)\<rparr>) \<and>
   ''cy@x.com'' \<notin> set (map email (user_coll db_bea)) \<and>
   login toy_sign db_bea ''cy@x.com'' ''pw1'' = (Inl InvalidCredentials, db_bea) \<and>
   ''pw1'' \<noteq> password bea \<and>
   login toy_sign db_bea (email bea) ''pw1'' = (Inl InvalidCredentials, db_bea)"
proof -
  have 1: "ids_distinct db_bea" by (simp add: ids_distinct_def ex2_defs)
  have 2: "bea \<in> set (user_coll db_bea)" by (simp add: ex2_defs)
  have 3: "toy_verify (toy_sign \<lparr>payload_userId = Some (user_id bea)\<rparr>) =
     Inr \<lparr>payload_userId = Some (user_id bea)\<rparr>"
    by (simp add: toy_verify_def toy_sign_def)
  have 4: "''cy@x.com'' \<notin> set (map email (user_coll db_bea))" by (simp add: ex2_defs)
  have 5: "''pw1'' \<noteq> password bea" by (simp add: ex2_defs)
  from login_roundtrip [OF 1, of bea toy_verify toy_sign "''cy@x.com''" "''pw1''"] 1 2 3 4 5
  show ?thesis by blast
qed

text \<open>
  C5. Registering with an email that a stored user has throws the error
  "Email already registered" (the spec's DuplicateEmail) and leaves the database as it
  was: no stored user changes and none is added.
\<close>

theorem register_duplicate_email:
  assumes "u \<in> set (user_coll d)" and "email u = em"
  shows "register d nm em pw newId = (Inl DuplicateEmail, d)"
proof -
  from assms have "find (\<lambda>x. email x = em) (user_coll d) \<noteq> None"
    by (auto simp: find_None_iff)
  then show ?thesis
    by (auto simp: register_def User_findOne_def)
qed

theorem register_duplicate_email_witness:
  "ann \<in> set (user_coll db_ann) \<and> email ann = ''ann@x.com'' \<and>
   register db_ann ''Bob'' ''ann@x.com'' ''pw2'' ''0000000000000000000000b2'' = (Inl DuplicateEmail, db_ann)"
  using register_duplicate_email [of ann db_ann "''ann@x.com''" "''Bob''" "''pw2''" "''0000000000000000000000b2''"]
  by (simp add: ex_defs)

text \<open>
  C6. The middleware never throws and always calls \<^verbatim>\<open>next()\<close>, whatever the header
  and whatever \<^verbatim>\<open>jwt.verify\<close> does. Let \<open>a\<close> and \<open>t\<close> be words, strings without a
  space. With no header, or a header of one word, the request is left as it came, isAuth
  undefined, which every resolver reads as unauthenticated, and so it is when the
  second word is empty. With a header of a first word \<open>a\<close>, a space and a second word
  \<open>t\<close> that is not empty, followed or not by a space and more, the token verified is
  \<open>t\<close>: when verification throws, for whatever reason, isAuth is false, no user id is
  set, and the request does not depend on the error thrown; when it succeeds, isAuth is
  true and the user id is the one of the decoded payload. By \<open>header_shapes\<close> these are
  all the headers.
\<close>

theorem isAuth_gate:
  assumes "CHR '' '' \<notin> set a" and "CHR '' '' \<notin> set t"
  shows "(\<exists>r'. isAuth jwt_verify (new_req h) = Inr r') \<and>
         (h = None \<or> h = Some a \<longrightarrow>
            isAuth jwt_verify (new_req h) = Inr (new_req h) \<and> \<not> authenticated (new_req h)) \<and>
         (h = Some (a @ CHR '' '' # t) \<or> h = Some (a @ CHR '' '' # t @ CHR '' '' # rest) \<longrightarrow>
            (\<exists>r'. isAuth jwt_verify (new_req h) = Inr r' \<and>
               (if t = [] then r' = new_req h \<and> \<not> authenticated r'
                else (case jwt_verify t of
                        Inl err \<Rightarrow>
                          r' = (new_req h)\<lparr>req_isAuth := Some False\<rparr> \<and>
                          \<not> authenticated r' \<and> req_userId r' = None
                      | Inr decoded \<Rightarrow>
                          r' = (new_req h)
                                 \<lparr>req_isAuth := Some True, req_userId := payload_userId decoded\<rparr> \<and>
                          authenticated r' \<and> req_userId r' = payload_userId decoded))))"
proof -
  have 1: "\<exists>r'. isAuth jwt_verify (new_req h) = Inr r'"
    by (simp add: isAuth_def split: option.split sum.split)
  have 2: "isAuth jwt_verify (new_req h) = Inr (new_req h) \<and> \<not> authenticated (new_req h)"
    if "h = None \<or> h = Some a"
  proof -
    from that have "bearer_token (new_req h) = None"
      using assms(1) by (auto simp: bearer_token_absent)
    then show ?thesis
      by (simp add: isAuth_def authenticated_def new_req_def)
  qed
  have 3: "\<exists>r'. isAuth jwt_verify (new_req h) = Inr r' \<and>
               (if t = [] then r' = new_req h \<and> \<not> authenticated r'
                else (case jwt_verify t of
                        Inl err \<Rightarrow>
                          r' = (new_req h)\<lparr>req_isAuth := Some False\<rparr> \<and>
                          \<not> authenticated r' \<and> req_userId r' = None
                      | Inr decoded \<Rightarrow>
                          r' = (new_req h)
                                 \<lparr>req_isAuth := Some True, req_userId := payload_userId decoded\<rparr> \<and>
                          authenticated r' \<and> req_userId r' = payload_userId decoded))"
    if "h = Some (a @ CHR '' '' # t) \<or> h = Some (a @ CHR '' '' # t @ CHR '' '' # rest)"
  proof -
    from that have b: "bearer_token (new_req h) = Some t"
      using bearer_token_second_word [OF assms] by auto
    have e: "isAuth jwt_verify (new_req h) =
        (if t = [] then Inr (new_req h)
         else (case jwt_verify t of
                 Inl err \<Rightarrow> Inr ((new_req h)\<lparr>req_isAuth := Some False\<rparr>)
               | Inr decoded \<Rightarrow>
                   Inr ((new_req h)
                          \<lparr>req_isAuth := Some True, req_userId := payload_userId decoded\<rparr>)))"
      by (simp add: isAuth_def b)
    have n: "req_isAuth (new_req h) = None" "req_userId (new_req h) = None"
      by (simp_all add: new_req_def)
    show ?thesis
      unfolding e by (cases "jwt_verify t") (simp_all add: authenticated_def n)
  qed
  from 1 2 3 show ?thesis by blast
qed

theorem isAuth_gate_witness:
  "CHR '' '' \<notin> set ''Bearer'' \<and> CHR '' '' \<notin> set ''tok-0000000000000000000000a1'' \<and>
   isAuth toy_verify (new_req (Some ''Bearer tok-0000000000000000000000a1'')) =
     Inr \<lparr>authorization = Some ''Bearer tok-0000000000000000000000a1'',
          req_isAuth = Some True, req_userId = Some ''0000000000000000000000a1''\<rparr> \<and>
   isAuth (\<lambda>token. Inl TokenExpiredError) (new_req (Some ''Bearer tok-0000000000000000000000a1'')) =
     Inr \<lparr>authorization = Some ''Bearer tok-0000000000000000000000a1'',
          req_isAuth = Some False, req_userId = None\<rparr> \<and>
   isAuth toy_verify (new_req (Some ''Bearer'')) = Inr (new_req (Some ''Bearer'')) \<and>
   isAuth toy_verify (new_req None) = Inr (new_req None)"
proof -
  have 1: "CHR '' '' \<notin> set ''Bearer''" by simp
  have 2: "CHR '' '' \<notin> set ''tok-0000000000000000000000a1''" by simp
  have h: "''Bearer tok-0000000000000000000000a1'' =
             ''Bearer'' @ CHR '' '' # ''tok-0000000000000000000000a1''"
    by simp
  from isAuth_gate [OF 1 2, of toy_verify "Some ''Bearer tok-0000000000000000000000a1''"]
  have a: "isAuth toy_verify (new_req (Some ''Bearer tok-0000000000000000000000a1'')) =
     Inr \<lparr>authorization = Some ''Bearer tok-0000000000000000000000a1'',
          req_isAuth = Some True, req_userId = Some ''0000000000000000000000a1''\<rparr>"
    unfolding h by (auto simp: toy_verify_def new_req_def)
  from isAuth_gate [OF 1 2, of "\<lambda>token. Inl TokenExpiredError"
      "Some ''Bearer tok-0000000000000000000000a1''"]
  have b: "isAuth (\<lambda>token. Inl TokenExpiredError)
       (new_req (Some ''Bearer tok-0000000000000000000000a1'')) =
     Inr \<lparr>authorization = Some ''Bearer tok-0000000000000000000000a1'',
          req_isAuth = Some False, req_userId = None\<rparr>"
    unfolding h by (auto simp: new_req_def)
  from isAuth_gate [OF 1 2, of toy_verify "Some ''Bearer''"]
  have c: "isAuth toy_verify (new_req (Some ''Bearer'')) = Inr (new_req (Some ''Bearer''))"
    by blast
  from isAuth_gate [OF 1 2, of toy_verify None]
  have d: "isAuth toy_verify (new_req None) = Inr (new_req None)"
    by blast
  from 1 2 a b c d show ?thesis by blast
qed

text \<open>
  C7. Along every run of requests, of any kind and in any context, the database only
  grows: every user stays at its place in the collection with its id, every progress
  record of the user stays at its place in the array with its course, and the completed
  lessons it had are still there, first and in their order; every course stays at its
  place with its id. New users, records and lessons come after those of before.
\<close>

theorem run_grows: "db_grows d (run jwt_sign d qs)"
  unfolding run_def
proof (induction qs arbitrary: d)
  case Nil
  show ?case by (simp add: db_grows_refl)
next
  case (Cons q qs)
  have "db_grows d (exec jwt_sign d q)" by (rule exec_grows)
  moreover have "db_grows (exec jwt_sign d q) (foldl (exec jwt_sign) (exec jwt_sign d q) qs)"
    by (rule Cons.IH)
  ultimately show ?case by (simp add: db_grows_trans)
qed

text \<open>
  C8, amended. \<^verbatim>\<open>courses\<close> resolves the same for every request, authenticated or
  not, and leaves the database as it was. It returns all stored courses when no category
  is given, and also when the category given is the empty string, which JavaScript
  reads as false; for a category that is not empty it returns exactly the stored courses
  whose category is that string, in their stored order.
\<close>

theorem courses_filter:
  "courses d cat r =
     (Inr (case cat of
             None \<Rightarrow> course_coll d
           | Some c \<Rightarrow> if c = [] then course_coll d
                       else filter (\<lambda>x. category x = Some c) (course_coll d)), d)"
  by (simp add: courses_def Course_find_def split: option.split)

text \<open>
  C8 as stated fails for the empty string: with that filter the resolver returns the
  course of category "math".
\<close>

theorem courses_empty_filter_counterexample:
  "fst (courses db_ann (Some []) (new_req None)) = Inr [algebra] \<and> category algebra \<noteq> Some []"
  by (simp add: courses_def Course_find_def ex_defs)




text \<open>
  C10. For an authenticated user with a progress record for the course,
  \<^verbatim>\<open>completeLesson\<close> resolves to that record with the lesson among its completed
  lessons, whatever string the lesson is, and stores it. The stored courses play no part:
  with any other course collection \<open>cs\<close> the resolver returns the same record and
  leaves the same users.
\<close>

theorem completeLesson_any_lesson:
  assumes "authenticated r" and "User_findById d (req_userId r) = Some u"
    and "find (\<lambda>p. course p = courseId) (progress u) = Some p"
  shows "\<exists>p' u'. fst (completeLesson d courseId lesson r) = Inr p' \<and>
           lesson \<in> set (completedLessons p') \<and>
           User_findById (snd (completeLesson d courseId lesson r)) (req_userId r) = Some u' \<and>
           find (\<lambda>p. course p = courseId) (progress u') = Some p' \<and>
           completeLesson (d\<lparr>course_coll := cs\<rparr>) courseId lesson r =
             (Inr p', (snd (completeLesson d courseId lesson r))\<lparr>course_coll := cs\<rparr>)"
proof -
  let ?p' = "if lesson \<notin> set (completedLessons p)
             then p\<lparr>completedLessons := completedLessons p @ [lesson]\<rparr> else p"
  let ?u' = "u\<lparr>progress := replace_first (\<lambda>p. course p = courseId) ?p' (progress u)\<rparr>"
  from assms(2) obtain k where k: "req_userId r = Some k"
    by (cases "req_userId r") (simp_all add: User_findById_def)
  have cp: "course ?p' = courseId"
    using assms(3) by (auto dest: find_Some_mem)
  have 1: "completeLesson d courseId lesson r = (Inr ?p', User_save d ?u')"
    by (rule completeLesson_found [OF assms])
  have 2: "lesson \<in> set (completedLessons ?p')" by simp
  have 3: "User_findById (User_save d ?u') (req_userId r) = Some ?u'"
    proof -
    have "user_id u = k"
      using assms(2) k by (auto simp: User_findById_def dest: find_Some_mem)
    then show ?thesis
      using assms(2) k by (simp add: User_findById_save)
  qed
  have 4: "find (\<lambda>p. course p = courseId) (progress ?u') = Some ?p'"
    using assms(3) cp by (simp add: find_replace_first)
  have 5: "User_findById (d\<lparr>course_coll := cs\<rparr>) (req_userId r) = Some u"
    using assms(2) by (simp add: User_findById_def split: option.splits)
  have 6: "completeLesson (d\<lparr>course_coll := cs\<rparr>) courseId lesson r =
            (Inr ?p', User_save (d\<lparr>course_coll := cs\<rparr>) ?u')"
    by (rule completeLesson_found [OF assms(1) 5 assms(3)])
  have 7: "User_save (d\<lparr>course_coll := cs\<rparr>) ?u' = (User_save d ?u')\<lparr>course_coll := cs\<rparr>"
    by (simp add: User_save_def)
  show ?thesis
    unfolding 1 6 7 using 2 3 4 by (intro exI [of _ ?p'] exI [of _ ?u']) simp
qed

theorem completeLesson_any_lesson_witness:
  "authenticated req_bea \<and> User_findById db_bea (req_userId req_bea) = Some bea \<and>
   find (\<lambda>p. course p = ''0000000000000000000000c1'') (progress bea) = Some \<lparr>course = ''0000000000000000000000c1'', completedLessons = [''lesson1'']\<rparr> \<and>
   ''no such lesson'' \<notin> set (lessons algebra_bea) \<and>
   fst (completeLesson db_bea ''0000000000000000000000c1'' ''no such lesson'' req_bea) =
     Inr \<lparr>course = ''0000000000000000000000c1'', completedLessons = [''lesson1'', ''no such lesson'']\<rparr>"
proof -
  have 1: "authenticated req_bea" by (simp add: authenticated_def ex2_defs)
  have 2: "User_findById db_bea (req_userId req_bea) = Some bea"
    by (simp add: User_findById_def ex2_defs)
  have 3: "find (\<lambda>p. course p = ''0000000000000000000000c1'') (progress bea) =
             Some \<lparr>course = ''0000000000000000000000c1'', completedLessons = [''lesson1'']\<rparr>"
    by (simp add: ex2_defs)
  have 4: "''no such lesson'' \<notin> set (lessons algebra_bea)" by (simp add: ex2_defs)
  from completeLesson_any_lesson [OF 1 2 3, of "''no such lesson''" "[]"]
  obtain p' where "fst (completeLesson db_bea ''0000000000000000000000c1'' ''no such lesson'' req_bea) = Inr p'"
    by blast
  moreover have "fst (completeLesson db_bea ''0000000000000000000000c1'' ''no such lesson'' req_bea) =
     Inr \<lparr>course = ''0000000000000000000000c1'', completedLessons = [''lesson1'', ''no such lesson'']\<rparr>"
    by (simp add: completeLesson_found [OF 1 2 3])
  ultimately show ?thesis using 1 2 3 4 by simp
qed

end
